theory Spec2Isabelle
  imports Complex_Main
begin

section \<open>The rebalancing bot of \<open>tradingbot.py\<close>\<close>

text \<open>
  The class \<open>AlpacaTradingBot\<close> is embedded as a record of its fields and one function
  per method, each taking the bot and returning it updated. The brokerage API is the
  environment: every call's outcome is an argument of the method that makes the call
  (\<open>None\<close> or \<open>False\<close> where the call raises). The logger is a field that collects one
  entry per logging call of the source.

  Python's floats (prices, the reserve, the percentage change) are idealised as exact
  rationals: rounding, infinities and NaN are outside the model. Share counts are
  Python's unbounded integers.
\<close>

subsection \<open>Data\<close>

datatype py_error = ZeroDivisionError | TypeError

text \<open>The dictionary \<open>get_position\<close> returns.\<close>

record position =
  qty :: int
  market_value :: rat
  avg_entry_price :: rat
  unrealized_pl :: rat
  unrealized_plpc :: rat

text \<open>
  The two rationale strings of \<open>calculate_rebalance_action\<close>; each formats the
  percentage change, which the constructor carries.
\<close>

datatype reason =
    Gain_reached rat
  | Loss_reached rat

text \<open>
  The dictionary \<open>calculate_rebalance_action\<close> returns. The keys \<open>reserve_cash\<close> and
  \<open>use_reserve\<close> are read with \<open>dict.get\<close>: an absent key reads as false.
\<close>

record action_dict =
  action :: string
  a_qty :: int
  a_reason :: reason
  reserve_cash :: bool
  use_reserve :: bool

text \<open>An entry of \<open>trades_today\<close>.\<close>

record trade =
  timestamp :: nat
  t_ticker :: "string option"
  side :: string
  t_qty :: int
  price :: "rat option"
  t_reason :: string

text \<open>One constructor per logging call of the source, with the values it formats.\<close>

datatype log_entry =
    Error_getting_price "string option"
  | Error_getting_position "string option"
  | Order_placed string int "string option"
  | Error_placing_order string "string option"
  | Reserved_cash rat
  | Used_reserved_cash
  | Error_executing_rebalance py_error
  | Error_checking_market_status
  | Starting_monitoring "string option"
  | Could_not_get_initial_price "string option"
  | Initial_price_is rat
  | Initial_position_is position
  | Status_line rat rat int rat
  | Rebalancing_action reason
  | Rebalancing_executed
  | Rebalancing_failed
  | Monitoring_stopped_by_user
  | Error_in_monitoring_loop py_error
  | Monitoring_stopped

text \<open>The fields of the bot, as \<open>__init__\<close> declares them, and the logger.\<close>

record bot =
  ticker :: "string option"
  initial_price :: "rat option"
  current_price :: "rat option"
  daily_high :: "rat option"
  daily_low :: "rat option"
  position_size :: int
  cash_reserve :: rat
  gain_threshold :: rat
  loss_threshold :: rat
  trades_today :: "trade list"
  is_running :: bool
  logger :: "log_entry list"

text \<open>
  What the broker answers during one iteration of the monitoring loop, one field per
  call site: the clock lookup of \<open>is_market_open\<close> (\<open>Some b\<close>: the clock says
  \<open>is_open = b\<close>; \<open>None\<close>: the lookup raises), the latest trade's price, the position
  lists for the status line and for \<open>calculate_rebalance_action\<close> (symbol and parsed
  fields of every open position), whether \<open>submit_order\<close> returns or raises, the
  time \<open>datetime.now()\<close> reads when a trade is recorded, and whether the sleep that
  ends the iteration is cut short by \<open>KeyboardInterrupt\<close>. An interrupt is taken to
  arrive during the sleep, where the loop spends its time.
\<close>

record responses =
  get_clock :: "bool option"
  get_latest_trade :: "rat option"
  list_positions_status :: "(string \<times> position) list option"
  list_positions_action :: "(string \<times> position) list option"
  submit_order :: bool
  now :: nat
  interrupted :: bool

subsection \<open>Construction\<close>

definition init :: bot where
  "init = \<lparr>ticker = None, initial_price = None, current_price = None,
            daily_high = None, daily_low = None, position_size = 0,
            cash_reserve = 0, gain_threshold = 5 / 100, loss_threshold = 10 / 100,
            trades_today = [], is_running = False, logger = []\<rparr>"

definition log_msg :: "bot \<Rightarrow> log_entry \<Rightarrow> bot" where
  "log_msg s m = s\<lparr>logger := logger s @ [m]\<rparr>"

subsection \<open>Python primitives\<close>

text \<open>\<open>a / b\<close> on floats raises on a zero divisor.\<close>

definition py_truediv :: "rat \<Rightarrow> rat \<Rightarrow> py_error + rat" where
  "py_truediv a b = (if b = 0 then Inl ZeroDivisionError else Inr (a / b))"

text \<open>\<open>int(x)\<close> on a float truncates towards zero.\<close>

definition py_int :: "rat \<Rightarrow> int" where
  "py_int x = (if 0 \<le> x then \<lfloor>x\<rfloor> else \<lceil>x\<rceil>)"

text \<open>\<open>max\<close> and \<open>min\<close> of a field that may still be \<open>None\<close> and a float.\<close>

definition py_max :: "rat option \<Rightarrow> rat \<Rightarrow> py_error + rat" where
  "py_max a b = (case a of None \<Rightarrow> Inl TypeError | Some x \<Rightarrow> Inr (max x b))"

definition py_min :: "rat option \<Rightarrow> rat \<Rightarrow> py_error + rat" where
  "py_min a b = (case a of None \<Rightarrow> Inl TypeError | Some x \<Rightarrow> Inr (min x b))"

text \<open>\<open>str.upper\<close>, on ASCII letters.\<close>

definition upper_char :: "char \<Rightarrow> char" where
  "upper_char c =
     (let n = (of_char c :: nat) in if 97 \<le> n \<and> n \<le> 122 then char_of (n - 32) else c)"

definition upper :: "string \<Rightarrow> string" where
  "upper t = map upper_char t"

subsection \<open>Broker queries\<close>

definition get_current_price :: "bot \<Rightarrow> string option \<Rightarrow> rat option \<Rightarrow> rat option \<times> bot" where
  "get_current_price s t latest_trade =
     (case latest_trade of
        Some p \<Rightarrow> (Some p, s)
      | None \<Rightarrow> (None, log_msg s (Error_getting_price t)))"

definition zero_position :: position where
  "zero_position = \<lparr>qty = 0, market_value = 0, avg_entry_price = 0,
                     unrealized_pl = 0, unrealized_plpc = 0\<rparr>"

text \<open>
  The first listed position whose symbol is the ticker; the all-zero position when there
  is none, and also when the lookup raises.
\<close>

definition get_position ::
    "bot \<Rightarrow> string option \<Rightarrow> (string \<times> position) list option \<Rightarrow> position \<times> bot" where
  "get_position s t positions =
     (case positions of
        Some ps \<Rightarrow>
          (case find (\<lambda>p. Some (fst p) = t) ps of
             Some p \<Rightarrow> (snd p, s)
           | None \<Rightarrow> (zero_position, s))
      | None \<Rightarrow> (zero_position, log_msg s (Error_getting_position t)))"

definition is_market_open :: "bot \<Rightarrow> bool option \<Rightarrow> bool \<times> bot" where
  "is_market_open s clock =
     (case clock of
        Some is_open \<Rightarrow> (True, s)
      | None \<Rightarrow> (False, log_msg s Error_checking_market_status))"

subsection \<open>Orders\<close>

definition place_order ::
    "bot \<Rightarrow> string option \<Rightarrow> int \<Rightarrow> string \<Rightarrow> bool \<Rightarrow> nat \<Rightarrow> bool \<times> bot" where
  "place_order s t q sd submitted time =
     (if submitted then
        (True,
         (log_msg s (Order_placed sd q t))
           \<lparr>trades_today := trades_today s @
              [\<lparr>timestamp = time, t_ticker = t, side = sd, t_qty = q,
                price = current_price s, t_reason = ''Rebalancing - '' @ sd\<rparr>]\<rparr>)
      else (False, log_msg s (Error_placing_order sd t)))"

subsection \<open>The decision\<close>

text \<open>
  \<open>not self.initial_price or not self.current_price\<close> tests truthiness: \<open>None\<close> and
  \<open>0.0\<close> are false, every other float is true. The result is paired with the bot,
  whose logger \<open>get_position\<close> may have written to.
\<close>

definition calculate_rebalance_action ::
    "bot \<Rightarrow> (string \<times> position) list option \<Rightarrow> (py_error + action_dict option) \<times> bot" where
  "calculate_rebalance_action s positions =
     (case initial_price s of
        None \<Rightarrow> (Inr None, s)
      | Some ip \<Rightarrow>
          if ip = 0 then (Inr None, s)
          else
            (case current_price s of
               None \<Rightarrow> (Inr None, s)
             | Some cp \<Rightarrow>
                 if cp = 0 then (Inr None, s)
                 else
                   (case py_truediv (cp - ip) ip of
                      Inl e \<Rightarrow> (Inl e, s)
                    | Inr pct_change \<Rightarrow>
                        (case get_position s (ticker s) positions of
                           (pos, s1) \<Rightarrow>
                             let current_qty = qty pos in
                             if pct_change \<ge> gain_threshold s1 \<and> cash_reserve s1 = 0 then
                               (if current_qty > 0 then
                                  (Inr (Some \<lparr>action = ''sell'',
                                       a_qty = max 1 (py_int (of_int current_qty * (5 / 100))),
                                       a_reason = Gain_reached pct_change,
                                       reserve_cash = True, use_reserve = False\<rparr>), s1)
                                else (Inr None, s1))
                             else if pct_change \<le> - loss_threshold s1 \<and> cash_reserve s1 > 0 then
                               (if cash_reserve s1 > 0 \<and> cp > 0 then
                                  (case py_truediv (cash_reserve s1) cp of
                                     Inl e \<Rightarrow> (Inl e, s1)
                                   | Inr d \<Rightarrow>
                                       let buy_qty = py_int d in
                                       if buy_qty > 0 then
                                         (Inr (Some \<lparr>action = ''buy'', a_qty = buy_qty,
                                              a_reason = Loss_reached pct_change,
                                              reserve_cash = False, use_reserve = True\<rparr>), s1)
                                       else (Inr None, s1))
                                else (Inr None, s1))
                             else (Inr None, s1)))))"

subsection \<open>Execution\<close>

text \<open>
  The \<open>try\<close> of \<open>execute_rebalance\<close> catches the \<open>TypeError\<close> of
  \<open>qty * self.current_price\<close> when the price is still \<open>None\<close>; the order has been
  placed and recorded by then.
\<close>

definition execute_rebalance :: "bot \<Rightarrow> action_dict \<Rightarrow> bool \<Rightarrow> nat \<Rightarrow> bool \<times> bot" where
  "execute_rebalance s a submitted time =
     (case place_order s (ticker s) (a_qty a) (action a) submitted time of
        (success, s1) \<Rightarrow>
          if success then
            (if reserve_cash a then
               (case current_price s1 of
                  None \<Rightarrow> (False, log_msg s1 (Error_executing_rebalance TypeError))
                | Some cp \<Rightarrow>
                    let s2 = s1\<lparr>cash_reserve := of_int (a_qty a) * cp\<rparr>
                    in (success, log_msg s2 (Reserved_cash (cash_reserve s2))))
             else if use_reserve a then
               (let s2 = s1\<lparr>cash_reserve := 0\<rparr>
                in (success, log_msg s2 Used_reserved_cash))
             else (success, s1))
          else (success, s1))"

subsection \<open>The monitoring loop\<close>

text \<open>
  How a block of the loop body ends: it runs to its end, or an exception leaves it; either
  way with the bot as it is at that moment.
\<close>

datatype body_result = Completed (bot_after: bot) | Raised py_error (bot_after: bot)

text \<open>
  The last block of the loop body (\<open># Check for rebalancing opportunity\<close>): decide, and
  execute what was decided. A returned dictionary is never empty, so \<open>if action\<close> is
  true exactly when the decision is not \<open>None\<close>.
\<close>

definition check_rebalancing :: "bot \<Rightarrow> responses \<Rightarrow> body_result" where
  "check_rebalancing s r =
     (case calculate_rebalance_action s (list_positions_action r) of
        (Inl e, s1) \<Rightarrow> Raised e s1
      | (Inr None, s1) \<Rightarrow> Completed s1
      | (Inr (Some a), s1) \<Rightarrow>
          let s2 = log_msg s1 (Rebalancing_action (a_reason a)) in
          (case execute_rebalance s2 a (submit_order r) (now r) of
             (success, s3) \<Rightarrow>
               Completed (log_msg s3
                 (if success then Rebalancing_executed else Rebalancing_failed))))"

text \<open>
  The body of the \<open>while\<close> loop of \<open>start_monitoring\<close>, up to the sleep. A fetched
  price of \<open>None\<close> or \<open>0.0\<close> is false in \<open>if current_price\<close>. The field
  \<open>daily_high\<close>, \<open>daily_low\<close> or \<open>initial_price\<close> being \<open>None\<close> makes the
  arithmetic on it raise \<open>TypeError\<close>.
\<close>

definition loop_body :: "bot \<Rightarrow> responses \<Rightarrow> body_result" where
  "loop_body s r =
     (case get_current_price s (ticker s) (get_latest_trade r) of
        (fetched, s1) \<Rightarrow>
          (case fetched of
             None \<Rightarrow> Completed s1
           | Some cp \<Rightarrow>
               if cp = 0 then Completed s1
               else
                 let s2 = s1\<lparr>current_price := Some cp\<rparr> in
                 (case py_max (daily_high s2) cp of
                    Inl e \<Rightarrow> Raised e s2
                  | Inr h \<Rightarrow>
                      let s3 = s2\<lparr>daily_high := Some h\<rparr> in
                      (case py_min (daily_low s3) cp of
                         Inl e \<Rightarrow> Raised e s3
                       | Inr l \<Rightarrow>
                           let s4 = s3\<lparr>daily_low := Some l\<rparr> in
                           (case initial_price s4 of
                              None \<Rightarrow> Raised TypeError s4
                            | Some ip \<Rightarrow>
                                (case py_truediv (cp - ip) ip of
                                   Inl e \<Rightarrow> Raised e s4
                                 | Inr pct_change \<Rightarrow>
                                     (case get_position s4 (ticker s4) (list_positions_status r) of
                                        (pos, s5) \<Rightarrow>
                                          check_rebalancing
                                            (log_msg s5
                                               (Status_line cp pct_change (qty pos) (cash_reserve s5)))
                                            r)))))))"

text \<open>
  How an iteration ends: \<open>Continue\<close> when the loop goes on to the next iteration,
  \<open>Exit\<close> when the loop is left.
\<close>

datatype outcome = Continue (bot_of: bot) | Exit (bot_of: bot)

text \<open>
  \<open>time.sleep(30)\<close>, with the handler of \<open>KeyboardInterrupt\<close> around the loop.
\<close>

definition sleep :: "bot \<Rightarrow> responses \<Rightarrow> outcome" where
  "sleep s r =
     (if interrupted r then Exit (log_msg s Monitoring_stopped_by_user) else Continue s)"

text \<open>
  One iteration: the loop condition, the body, the sleep. The loop is left when the
  condition is false, when the body raises (the handler around the loop logs it) and
  when the sleep is interrupted.
\<close>

definition iteration :: "bot \<Rightarrow> responses \<Rightarrow> outcome" where
  "iteration s r =
     (if is_running s then
        (case is_market_open s (get_clock r) of
           (is_open, s1) \<Rightarrow>
             if is_open then
               (case loop_body s1 r of
                  Completed s2 \<Rightarrow> sleep s2 r
                | Raised e s2 \<Rightarrow> Exit (log_msg s2 (Error_in_monitoring_loop e)))
             else Exit s1)
      else Exit s)"

text \<open>
  The loop over the broker's answers, one element per iteration. The loop has no bound
  of its own: it runs for as long as the answers let it. The list is the part of the run
  that is observed, and the result is \<open>Exit\<close> when the loop is left within it and
  \<open>Continue\<close>, with the bot as it is then, when the loop is still running at its end.
\<close>

fun monitoring_loop :: "bot \<Rightarrow> responses list \<Rightarrow> outcome" where
  "monitoring_loop s [] = Continue s"
| "monitoring_loop s (r # rs) =
     (case iteration s r of
        Continue s' \<Rightarrow> monitoring_loop s' rs
      | Exit s' \<Rightarrow> Exit s')"

text \<open>
  \<open>stop_monitoring\<close>. The summary it prints goes to standard output and is left out,
  with the two broker queries made for it.
\<close>

definition stop_monitoring :: "bot \<Rightarrow> bot" where
  "stop_monitoring s = log_msg (s\<lparr>is_running := False\<rparr>) Monitoring_stopped"

text \<open>
  The start of \<open>start_monitoring\<close>, up to the loop: \<open>Inl\<close> when the initial price is
  missing (or zero) and the method returns, \<open>Inr\<close> the bot that enters the loop.
\<close>

definition initialize ::
    "bot \<Rightarrow> string \<Rightarrow> rat option \<Rightarrow> (string \<times> position) list option \<Rightarrow> bot + bot" where
  "initialize s t latest_trade positions =
     (let s1 = s\<lparr>ticker := Some (upper t)\<rparr>;
          s2 = log_msg s1 (Starting_monitoring (ticker s1))
      in case get_current_price s2 (ticker s2) latest_trade of
           (fetched, s3) \<Rightarrow>
             (case fetched of
                None \<Rightarrow> Inl (log_msg (s3\<lparr>initial_price := None\<rparr>)
                               (Could_not_get_initial_price (ticker s3)))
              | Some ip \<Rightarrow>
                  if ip = 0
                  then Inl (log_msg (s3\<lparr>initial_price := Some ip\<rparr>)
                              (Could_not_get_initial_price (ticker s3)))
                  else
                    let s4 = s3\<lparr>initial_price := Some ip, daily_high := Some ip,
                                 daily_low := Some ip, current_price := Some ip\<rparr>;
                        s5 = log_msg s4 (Initial_price_is ip)
                    in case get_position s5 (ticker s5) positions of
                         (pos, s6) \<Rightarrow>
                           Inr ((log_msg s6 (Initial_position_is pos))\<lparr>is_running := True\<rparr>)))"

text \<open>
  \<open>start_monitoring\<close>: \<open>Some\<close> the bot when the method returns within the observed
  answers, \<open>None\<close> when the loop is still running at their end.
\<close>

definition start_monitoring ::
    "bot \<Rightarrow> string \<Rightarrow> rat option \<Rightarrow> (string \<times> position) list option \<Rightarrow> responses list
      \<Rightarrow> bot option" where
  "start_monitoring s t latest_trade positions rs =
     (case initialize s t latest_trade positions of
        Inl s' \<Rightarrow> Some s'
      | Inr s' \<Rightarrow>
          (case monitoring_loop s' rs of
             Exit s'' \<Rightarrow> Some (stop_monitoring s'')
           | Continue s'' \<Rightarrow> None))"

subsection \<open>An example session\<close>

text \<open>
  The session of the scenarios: the ticker is set, the reference price is 100 and the
  last observed price is 105; \<open>shares n\<close> is a position of \<open>n\<close> shares.
\<close>

definition example_bot :: bot where
  "example_bot = init\<lparr>ticker := Some ''AAPL'', initial_price := Some 100,
                       current_price := Some 105, daily_high := Some 105,
                       daily_low := Some 100, is_running := True\<rparr>"

definition shares :: "int \<Rightarrow> position" where
  "shares n = zero_position\<lparr>qty := n\<rparr>"

text \<open>The bot with which that session enters the loop, started on 100 shares.\<close>

definition example_active :: bot where
  "example_active = example_bot\<lparr>current_price := Some 100, daily_high := Some 100,
       logger := [Starting_monitoring (Some ''AAPL''), Initial_price_is 100,
                  Initial_position_is (shares 100)]\<rparr>"

text \<open>
  Answers of the broker for one iteration: the market is open, the price is 105, the
  position is 100 shares, the order is accepted and the sleep is not interrupted.
\<close>

definition answers :: responses where
  "answers = \<lparr>get_clock = Some True, get_latest_trade = Some 105,
               list_positions_status = Some [(''AAPL'', shares 100)],
               list_positions_action = Some [(''AAPL'', shares 100)],
               submit_order = True, now = 0, interrupted = False\<rparr>"

subsection \<open>Reaching the rebalancing block\<close>

text \<open>
  An iteration reaches the rebalancing block when the loop condition holds, a non-zero
  price is fetched and the tracked prices are set; every other iteration leaves the
  reserve and the ledger alone.
\<close>

definition reaches_check :: "bot \<Rightarrow> responses \<Rightarrow> bool" where
  "reaches_check s r \<longleftrightarrow>
     is_running s \<and> get_clock r \<noteq> None
     \<and> (case get_latest_trade r of None \<Rightarrow> False | Some cp \<Rightarrow> cp \<noteq> 0)
     \<and> daily_high s \<noteq> None \<and> daily_low s \<noteq> None
     \<and> (case initial_price s of None \<Rightarrow> False | Some ip \<Rightarrow> ip \<noteq> 0)"

section \<open>Properties\<close>

subsection \<open>Auxiliary facts\<close>

lemma logger_log_msg: "logger (log_msg s m) = logger s @ [m]"
  by (simp add: log_msg_def)

text \<open>The definitions a run on concrete values unfolds.\<close>

lemmas run_defs =
  iteration_def sleep_def loop_body_def check_rebalancing_def calculate_rebalance_action_def
  execute_rebalance_def place_order_def get_position_def get_current_price_def
  is_market_open_def py_max_def py_min_def py_truediv_def py_int_def log_msg_def
  example_bot_def example_active_def answers_def shares_def zero_position_def init_def Let_def

lemma upper_AAPL: "upper ''AAPL'' = ''AAPL''"
  by (simp add: upper_def upper_char_def)

lemmas start_defs = start_monitoring_def initialize_def stop_monitoring_def upper_AAPL


lemma get_position_fields:
  assumes "get_position s t positions = (pos, s1)"
  shows "cash_reserve s1 = cash_reserve s" and "gain_threshold s1 = gain_threshold s"
    and "loss_threshold s1 = loss_threshold s" and "current_price s1 = current_price s"
    and "initial_price s1 = initial_price s" and "trades_today s1 = trades_today s"
    and "daily_high s1 = daily_high s" and "daily_low s1 = daily_low s"
    and "ticker s1 = ticker s" and "is_running s1 = is_running s"
  using assms by (auto simp: get_position_def log_msg_def split: option.splits)

lemma gain_implies_price_pos:
  fixes ip cp :: rat
  assumes "0 < ip" and "5 / 100 \<le> (cp - ip) / ip"
  shows "0 < cp"
proof -
  from assms have "5 / 100 * ip \<le> cp - ip"
    by (simp add: pos_le_divide_eq)
  with assms(1) show ?thesis by simp
qed

lemma calculate_never_raises: "fst (calculate_rebalance_action s positions) \<noteq> Inl e"
  by (auto simp: calculate_rebalance_action_def py_truediv_def Let_def
      split: option.splits prod.splits sum.splits if_splits)

lemma calculate_action_cases:
  assumes "calculate_rebalance_action s positions = (Inr (Some a), s1)"
  shows "\<exists>ip cp pos. initial_price s = Some ip \<and> ip \<noteq> 0 \<and> current_price s = Some cp \<and> cp \<noteq> 0
      \<and> get_position s (ticker s) positions = (pos, s1)
      \<and> (action a = ''sell'' \<and> reserve_cash a \<and> \<not> use_reserve a \<and> cash_reserve s = 0
            \<and> 0 < qty pos \<and> 1 \<le> a_qty a \<and> gain_threshold s \<le> (cp - ip) / ip
          \<or> action a = ''buy'' \<and> \<not> reserve_cash a \<and> use_reserve a \<and> 0 < cash_reserve s
            \<and> 0 < cp \<and> 0 < a_qty a)"
  using assms
  by (auto simp: calculate_rebalance_action_def py_truediv_def Let_def
      dest: get_position_fields
      split: option.splits prod.splits sum.splits if_splits)

lemma calculate_state:
  assumes "calculate_rebalance_action s positions = (res, s1)"
  shows "s1 = s \<or> s1 = log_msg s (Error_getting_position (ticker s))"
  using assms
  by (auto simp: calculate_rebalance_action_def py_truediv_def Let_def get_position_def
      split: option.splits prod.splits sum.splits if_splits)

lemma sold_value_pos:
  fixes cp :: rat
  assumes "1 \<le> q" and "0 < cp"
  shows "0 < of_int q * cp"
  using assms by (simp add: zero_less_mult_iff)

text \<open>What a decision made against a positive reference price leads to when it is executed.\<close>

lemma decide_then_execute:
  assumes "calculate_rebalance_action s positions = (Inr (Some a), s1)"
    and "initial_price s = Some ip" and "0 < ip" and "gain_threshold s = 5 / 100"
    and "execute_rebalance (log_msg s1 m) a submitted time = (ok, s2)"
  shows "ok = submitted
       \<and> (submitted \<and> reserve_cash a \<longrightarrow>
            cash_reserve s = 0 \<and> 0 < cash_reserve s2
            \<and> (\<exists>o1. logger s2 = logger s1 @ [m, o1, Reserved_cash (cash_reserve s2)]
                   \<and> o1 \<noteq> Used_reserved_cash \<and> (\<forall>v. o1 \<noteq> Reserved_cash v)))
       \<and> (submitted \<and> \<not> reserve_cash a \<longrightarrow>
            0 < cash_reserve s \<and> cash_reserve s2 = 0
            \<and> (\<exists>o1. logger s2 = logger s1 @ [m, o1, Used_reserved_cash]
                   \<and> o1 \<noteq> Used_reserved_cash \<and> (\<forall>v. o1 \<noteq> Reserved_cash v)))
       \<and> (\<not> submitted \<longrightarrow>
            cash_reserve s2 = cash_reserve s
            \<and> (\<exists>o1. logger s2 = logger s1 @ [m, o1]
                   \<and> o1 \<noteq> Used_reserved_cash \<and> (\<forall>v. o1 \<noteq> Reserved_cash v)))"
proof -
  from calculate_action_cases [OF assms(1)] obtain ip' cp pos where
    c: "initial_price s = Some ip'" "current_price s = Some cp" "cp \<noteq> 0"
       "get_position s (ticker s) positions = (pos, s1)"
       "action a = ''sell'' \<and> reserve_cash a \<and> \<not> use_reserve a \<and> cash_reserve s = 0
            \<and> 0 < qty pos \<and> 1 \<le> a_qty a \<and> gain_threshold s \<le> (cp - ip') / ip'
          \<or> action a = ''buy'' \<and> \<not> reserve_cash a \<and> use_reserve a \<and> 0 < cash_reserve s
            \<and> 0 < cp \<and> 0 < a_qty a"
    by blast
  have ip': "ip' = ip" using c(1) assms(2) by simp
  note f = get_position_fields [OF c(4)]
  from c(5) show ?thesis
  proof
    assume sell: "action a = ''sell'' \<and> reserve_cash a \<and> \<not> use_reserve a \<and> cash_reserve s = 0
            \<and> 0 < qty pos \<and> 1 \<le> a_qty a \<and> gain_threshold s \<le> (cp - ip') / ip'"
    then have "5 / 100 \<le> (cp - ip) / ip" using assms(4) ip' by simp
    then have "0 < cp" using assms(3) gain_implies_price_pos by blast
    then have "0 < of_int (a_qty a) * cp" using sell sold_value_pos by blast
    then show ?thesis
      using assms(5) sell f c(2)
      by (auto simp: execute_rebalance_def place_order_def log_msg_def split: if_splits)
  next
    assume buy: "action a = ''buy'' \<and> \<not> reserve_cash a \<and> use_reserve a \<and> 0 < cash_reserve s
            \<and> 0 < cp \<and> 0 < a_qty a"
    then show ?thesis
      using assms(5) f c(2)
      by (auto simp: execute_rebalance_def place_order_def log_msg_def split: if_splits)
  qed
qed

lemma check_rebalancing_completes: "\<exists>s'. check_rebalancing s r = Completed s'"
proof (cases "calculate_rebalance_action s (list_positions_action r)")
  case (Pair res s1)
  then have "res \<noteq> Inl e" for e
    using calculate_never_raises [of s "list_positions_action r" e] by auto
  with Pair show ?thesis
    by (auto simp: check_rebalancing_def Let_def split: sum.splits option.splits prod.splits)
qed

lemma check_rebalancing_reserve:
  assumes "initial_price s = Some ip" and "0 < ip" and "gain_threshold s = 5 / 100"
  shows "\<exists>new. logger (bot_after (check_rebalancing s r)) = logger s @ new
      \<and> (\<forall>v. Reserved_cash v \<in> set new \<longrightarrow>
             cash_reserve s = 0 \<and> cash_reserve (bot_after (check_rebalancing s r)) = v \<and> 0 < v)
      \<and> (Used_reserved_cash \<in> set new \<longrightarrow>
             0 < cash_reserve s \<and> cash_reserve (bot_after (check_rebalancing s r)) = 0)
      \<and> ((\<forall>v. Reserved_cash v \<notin> set new) \<and> Used_reserved_cash \<notin> set new \<longrightarrow>
             cash_reserve (bot_after (check_rebalancing s r)) = cash_reserve s)"
proof (cases "calculate_rebalance_action s (list_positions_action r)")
  case (Pair res s1)
  from calculate_state [OF Pair]
  have s1: "s1 = s \<or> s1 = log_msg s (Error_getting_position (ticker s))" .
  show ?thesis
  proof (cases res)
    case (Inl e)
    with Pair s1 show ?thesis
      by (auto simp: check_rebalancing_def log_msg_def)
  next
    case (Inr d)
    show ?thesis
    proof (cases d)
      case None
      with Pair Inr s1 show ?thesis
        by (auto simp: check_rebalancing_def log_msg_def)
    next
      case (Some a)
      obtain ok s3 where ex: "execute_rebalance (log_msg s1 (Rebalancing_action (a_reason a))) a
          (submit_order r) (now r) = (ok, s3)"
        by (cases "execute_rebalance (log_msg s1 (Rebalancing_action (a_reason a))) a
          (submit_order r) (now r)") auto
      have calc: "calculate_rebalance_action s (list_positions_action r) = (Inr (Some a), s1)"
        using Pair Inr Some by simp
      have res: "bot_after (check_rebalancing s r)
          = log_msg s3 (if ok then Rebalancing_executed else Rebalancing_failed)"
        using calc ex by (simp add: check_rebalancing_def Let_def)
      note d = decide_then_execute [OF calc assms ex]
      from s1 obtain pre where pre: "logger s1 = logger s @ pre"
        "\<forall>v. Reserved_cash v \<notin> set pre" "Used_reserved_cash \<notin> set pre"
        by (auto simp: log_msg_def)
      show ?thesis
      proof (cases "submit_order r")
        case False
        with d pre res show ?thesis by (auto simp: log_msg_def)
      next
        case True
        show ?thesis
        proof (cases "reserve_cash a")
          case True
          with d pre res \<open>submit_order r\<close> show ?thesis by (auto simp: log_msg_def)
        next
          case False
          with d pre res \<open>submit_order r\<close> show ?thesis by (auto simp: log_msg_def)
        qed
      qed
    qed
  qed
qed

lemma sleep_fields:
  "initial_price (bot_of (sleep s r)) = initial_price s"
  "current_price (bot_of (sleep s r)) = current_price s"
  "daily_high (bot_of (sleep s r)) = daily_high s"
  "daily_low (bot_of (sleep s r)) = daily_low s"
  "cash_reserve (bot_of (sleep s r)) = cash_reserve s"
  "gain_threshold (bot_of (sleep s r)) = gain_threshold s"
  "loss_threshold (bot_of (sleep s r)) = loss_threshold s"
  "trades_today (bot_of (sleep s r)) = trades_today s"
  "is_running (bot_of (sleep s r)) = is_running s"
  "ticker (bot_of (sleep s r)) = ticker s"
  "logger (bot_of (sleep s r))
     = logger s @ (if interrupted r then [Monitoring_stopped_by_user] else [])"
  by (simp_all add: sleep_def log_msg_def)

lemma iteration_quiet:
  assumes "\<not> reaches_check s r"
  shows "\<exists>new. logger (bot_of (iteration s r)) = logger s @ new
           \<and> (\<forall>v. Reserved_cash v \<notin> set new) \<and> Used_reserved_cash \<notin> set new
           \<and> Error_getting_position (ticker s) \<notin> set new"
    and "cash_reserve (bot_of (iteration s r)) = cash_reserve s"
    and "trades_today (bot_of (iteration s r)) = trades_today s"
  using assms
  by (auto simp: reaches_check_def iteration_def sleep_def loop_body_def is_market_open_def
        get_current_price_def py_max_def py_min_def py_truediv_def log_msg_def Let_def
      split: option.splits)

lemma iteration_checked:
  assumes "reaches_check s r"
  shows "\<exists>cp h l ip pos s5.
      get_latest_trade r = Some cp \<and> cp \<noteq> 0 \<and> daily_high s = Some h \<and> daily_low s = Some l
    \<and> initial_price s = Some ip \<and> ip \<noteq> 0
    \<and> get_position (s\<lparr>current_price := Some cp, daily_high := Some (max h cp),
                        daily_low := Some (min l cp)\<rparr>) (ticker s) (list_positions_status r)
        = (pos, s5)
    \<and> iteration s r = sleep (bot_after (check_rebalancing
         (log_msg s5 (Status_line cp ((cp - ip) / ip) (qty pos) (cash_reserve s))) r)) r"
proof -
  from assms obtain cp h l ip b where
    a: "is_running s" "get_clock r = Some b" "get_latest_trade r = Some cp" "cp \<noteq> 0"
       "daily_high s = Some h" "daily_low s = Some l" "initial_price s = Some ip" "ip \<noteq> 0"
    by (auto simp: reaches_check_def split: option.splits)
  obtain pos s5 where
    p: "get_position (s\<lparr>current_price := Some cp, daily_high := Some (max h cp),
                        daily_low := Some (min l cp)\<rparr>) (ticker s) (list_positions_status r)
        = (pos, s5)"
    by (cases "get_position (s\<lparr>current_price := Some cp, daily_high := Some (max h cp),
                        daily_low := Some (min l cp)\<rparr>) (ticker s) (list_positions_status r)")
      auto
  have cr: "cash_reserve s5 = cash_reserve s"
    using get_position_fields(1) [OF p] by simp
  obtain s' where c: "check_rebalancing
         (log_msg s5 (Status_line cp ((cp - ip) / ip) (qty pos) (cash_reserve s))) r = Completed s'"
    using check_rebalancing_completes by blast
  have "iteration s r = sleep (bot_after (check_rebalancing
         (log_msg s5 (Status_line cp ((cp - ip) / ip) (qty pos) (cash_reserve s))) r)) r"
    using a p cr c
    by (simp add: iteration_def loop_body_def is_market_open_def get_current_price_def
        py_max_def py_min_def py_truediv_def Let_def)
  with a p show ?thesis by blast
qed


lemma reserve_update_step:
  assumes "initial_price s = Some ip" and "0 < ip" and "gain_threshold s = 5 / 100"
  shows "(\<forall>v. Reserved_cash v \<in> set (drop (length (logger s)) (logger (bot_of (iteration s r)))) \<longrightarrow>
            cash_reserve s = 0 \<and> cash_reserve (bot_of (iteration s r)) = v \<and> 0 < v)
       \<and> (Used_reserved_cash \<in> set (drop (length (logger s)) (logger (bot_of (iteration s r)))) \<longrightarrow>
            0 < cash_reserve s \<and> cash_reserve (bot_of (iteration s r)) = 0)
       \<and> ((\<forall>v. Reserved_cash v \<notin> set (drop (length (logger s)) (logger (bot_of (iteration s r)))))
            \<and> Used_reserved_cash \<notin> set (drop (length (logger s)) (logger (bot_of (iteration s r)))) \<longrightarrow>
            cash_reserve (bot_of (iteration s r)) = cash_reserve s)"
proof (cases "reaches_check s r")
  case False
  from iteration_quiet(1,2) [OF False] show ?thesis by auto
next
  case True
  from iteration_checked [OF True] obtain cp h l ip' pos s5 where
    c: "initial_price s = Some ip'"
       "get_position (s\<lparr>current_price := Some cp, daily_high := Some (max h cp),
                        daily_low := Some (min l cp)\<rparr>) (ticker s) (list_positions_status r)
        = (pos, s5)"
       "iteration s r = sleep (bot_after (check_rebalancing
         (log_msg s5 (Status_line cp ((cp - ip') / ip') (qty pos) (cash_reserve s))) r)) r"
    by blast
  let ?s6 = "log_msg s5 (Status_line cp ((cp - ip') / ip') (qty pos) (cash_reserve s))"
  note f = get_position_fields [OF c(2)]
  have s6: "initial_price ?s6 = Some ip" "gain_threshold ?s6 = 5 / 100"
    "cash_reserve ?s6 = cash_reserve s"
    using f assms by (simp_all add: log_msg_def)
  from c(2) obtain pre where pre: "logger ?s6 = logger s @ pre"
      "\<forall>v. Reserved_cash v \<notin> set pre" "Used_reserved_cash \<notin> set pre"
    by (auto simp: get_position_def log_msg_def split: option.splits)
  from check_rebalancing_reserve [OF s6(1) assms(2) s6(2), of r] obtain new where
    new: "logger (bot_after (check_rebalancing ?s6 r)) = logger ?s6 @ new"
      "\<forall>v. Reserved_cash v \<in> set new \<longrightarrow>
             cash_reserve ?s6 = 0 \<and> cash_reserve (bot_after (check_rebalancing ?s6 r)) = v \<and> 0 < v"
      "Used_reserved_cash \<in> set new \<longrightarrow>
             0 < cash_reserve ?s6 \<and> cash_reserve (bot_after (check_rebalancing ?s6 r)) = 0"
      "(\<forall>v. Reserved_cash v \<notin> set new) \<and> Used_reserved_cash \<notin> set new \<longrightarrow>
             cash_reserve (bot_after (check_rebalancing ?s6 r)) = cash_reserve ?s6"
    by blast
  let ?tail = "if interrupted r then [Monitoring_stopped_by_user] else []"
  have b: "cash_reserve (bot_of (iteration s r))
      = cash_reserve (bot_after (check_rebalancing ?s6 r))"
    using c(3) by (simp add: sleep_fields)
  have lg: "drop (length (logger s)) (logger (bot_of (iteration s r))) = pre @ new @ ?tail"
    using c(3) new(1) pre(1) by (simp add: sleep_fields)
  show ?thesis
    unfolding lg using pre(2,3) new(2,3,4) s6(3) b by auto
qed

lemma check_rebalancing_fields:
  "initial_price (bot_after (check_rebalancing s r)) = initial_price s"
  "gain_threshold (bot_after (check_rebalancing s r)) = gain_threshold s"
  "loss_threshold (bot_after (check_rebalancing s r)) = loss_threshold s"
  "current_price (bot_after (check_rebalancing s r)) = current_price s"
  "daily_high (bot_after (check_rebalancing s r)) = daily_high s"
  "daily_low (bot_after (check_rebalancing s r)) = daily_low s"
  "is_running (bot_after (check_rebalancing s r)) = is_running s"
  "ticker (bot_after (check_rebalancing s r)) = ticker s"
  by (auto simp: check_rebalancing_def execute_rebalance_def place_order_def log_msg_def Let_def
      dest!: calculate_state
      split: option.splits prod.splits sum.splits if_splits)

lemma iteration_quiet_keeps:
  assumes "\<not> reaches_check s r"
  shows "initial_price (bot_of (iteration s r)) = initial_price s"
    and "gain_threshold (bot_of (iteration s r)) = gain_threshold s"
    and "loss_threshold (bot_of (iteration s r)) = loss_threshold s"
    and "is_running (bot_of (iteration s r)) = is_running s"
    and "ticker (bot_of (iteration s r)) = ticker s"
  using assms
  by (auto simp: reaches_check_def iteration_def sleep_def loop_body_def is_market_open_def
        get_current_price_def py_max_def py_min_def py_truediv_def log_msg_def Let_def
      split: option.splits)

lemma iteration_keeps:
  "initial_price (bot_of (iteration s r)) = initial_price s"
  "gain_threshold (bot_of (iteration s r)) = gain_threshold s"
  "loss_threshold (bot_of (iteration s r)) = loss_threshold s"
  "is_running (bot_of (iteration s r)) = is_running s"
  "ticker (bot_of (iteration s r)) = ticker s"
proof -
  have "initial_price (bot_of (iteration s r)) = initial_price s
      \<and> gain_threshold (bot_of (iteration s r)) = gain_threshold s
      \<and> loss_threshold (bot_of (iteration s r)) = loss_threshold s
      \<and> is_running (bot_of (iteration s r)) = is_running s
      \<and> ticker (bot_of (iteration s r)) = ticker s"
  proof (cases "reaches_check s r")
    case False
    then show ?thesis using iteration_quiet_keeps by simp
  next
    case True
    from iteration_checked [OF True] obtain cp h l ip pos s5 where
      c: "get_position (s\<lparr>current_price := Some cp, daily_high := Some (max h cp),
                        daily_low := Some (min l cp)\<rparr>) (ticker s) (list_positions_status r)
          = (pos, s5)"
         "iteration s r = sleep (bot_after (check_rebalancing
           (log_msg s5 (Status_line cp ((cp - ip) / ip) (qty pos) (cash_reserve s))) r)) r"
      by blast
    show ?thesis
      using get_position_fields [OF c(1)]
      by (simp add: c(2) sleep_fields check_rebalancing_fields log_msg_def)
  qed
  then show "initial_price (bot_of (iteration s r)) = initial_price s"
    "gain_threshold (bot_of (iteration s r)) = gain_threshold s"
    "loss_threshold (bot_of (iteration s r)) = loss_threshold s"
    "is_running (bot_of (iteration s r)) = is_running s"
    "ticker (bot_of (iteration s r)) = ticker s"
    by simp_all
qed

lemma monitoring_loop_keeps:
  "initial_price (bot_of (monitoring_loop s rs)) = initial_price s
   \<and> gain_threshold (bot_of (monitoring_loop s rs)) = gain_threshold s
   \<and> loss_threshold (bot_of (monitoring_loop s rs)) = loss_threshold s
   \<and> is_running (bot_of (monitoring_loop s rs)) = is_running s
   \<and> ticker (bot_of (monitoring_loop s rs)) = ticker s"
proof (induction rs arbitrary: s)
  case Nil
  show ?case by simp
next
  case (Cons r rs)
  show ?case
  proof (cases "iteration s r")
    case (Continue s')
    with Cons [of s'] iteration_keeps [of s r] show ?thesis by simp
  next
    case (Exit s')
    with iteration_keeps [of s r] show ?thesis by simp
  qed
qed

text \<open>One more answer adds one more iteration, unless the loop has been left before.\<close>

lemma monitoring_loop_snoc:
  "monitoring_loop s (rs @ [r])
     = (case monitoring_loop s rs of Continue b \<Rightarrow> iteration b r | Exit b \<Rightarrow> Exit b)"
proof (induction rs arbitrary: s)
  case Nil
  show ?case by (cases "iteration s r") simp_all
next
  case (Cons a rs)
  show ?case
  proof (cases "iteration s a")
    case (Continue s')
    with Cons [of s'] show ?thesis by simp
  next
    case (Exit s')
    then show ?thesis by simp
  qed
qed

lemma initialize_active:
  assumes "initialize s t latest positions = Inr s0"
  shows "\<exists>p0. latest = Some p0 \<and> p0 \<noteq> 0 \<and> initial_price s0 = Some p0
           \<and> current_price s0 = Some p0 \<and> daily_high s0 = Some p0 \<and> daily_low s0 = Some p0
           \<and> is_running s0 \<and> gain_threshold s0 = gain_threshold s
           \<and> loss_threshold s0 = loss_threshold s \<and> cash_reserve s0 = cash_reserve s
           \<and> trades_today s0 = trades_today s \<and> ticker s0 = Some (upper t)"
  using assms
  by (auto simp: initialize_def get_current_price_def get_position_def log_msg_def Let_def
      split: option.splits if_splits)

subsection \<open>The gain branch\<close>



subsection \<open>The loss branch\<close>



subsection \<open>The reserve\<close>

text \<open>
  C3, for a positive reference price. In every run of the loop from a reference price
  above zero, and for the entries the last iteration wrote to the log: cash is reserved
  (\<open>Reserved_cash\<close>) only when the reserve was 0, and the reserve is positive
  afterwards; the reserve is used (\<open>Used_reserved_cash\<close>) only when it was positive,
  and it is 0 afterwards; and an iteration that logs neither leaves the reserve as it was.
\<close>

theorem reserve_updates_alternate:
  assumes "initialize s t (Some p0) positions = Inr s0"
    and "0 < p0" and "gain_threshold s = 5 / 100"
  shows "let before = bot_of (monitoring_loop s0 rs);
             after = bot_of (monitoring_loop s0 (rs @ [r]));
             new = drop (length (logger before)) (logger after)
         in (\<forall>v. Reserved_cash v \<in> set new \<longrightarrow>
               cash_reserve before = 0 \<and> cash_reserve after = v \<and> 0 < v)
          \<and> (Used_reserved_cash \<in> set new \<longrightarrow>
               0 < cash_reserve before \<and> cash_reserve after = 0)
          \<and> ((\<forall>v. Reserved_cash v \<notin> set new) \<and> Used_reserved_cash \<notin> set new \<longrightarrow>
               cash_reserve after = cash_reserve before)"
proof -
  from initialize_active [OF assms(1)]
  have s0: "initial_price s0 = Some p0" "gain_threshold s0 = 5 / 100"
    using assms(3) by auto
  let ?b = "bot_of (monitoring_loop s0 rs)"
  have b: "initial_price ?b = Some p0" "gain_threshold ?b = 5 / 100"
    using monitoring_loop_keeps [of s0 rs] s0 by simp_all
  show ?thesis
  proof (cases "monitoring_loop s0 rs")
    case (Exit b')
    then show ?thesis by (simp add: monitoring_loop_snoc Let_def)
  next
    case (Continue b')
    then have "bot_of (monitoring_loop s0 (rs @ [r])) = bot_of (iteration ?b r)"
      by (simp add: monitoring_loop_snoc)
    then show ?thesis
      using reserve_update_step [OF b(1) assms(2) b(2), of r] by (simp add: Let_def)
  qed
qed

text \<open>
  A run from the reference price 100 with 100 shares: the first iteration sees 105, sells
  5 shares and reserves 525.
\<close>

theorem reserve_updates_alternate_witness:
  "initialize init ''AAPL'' (Some 100) (Some [(''AAPL'', shares 100)])
     = Inr example_active
   \<and> Reserved_cash 525 \<in> set (logger (bot_of (monitoring_loop example_active ([] @ [answers]))))
   \<and> cash_reserve (bot_of (monitoring_loop example_active ([] @ [answers]))) = 525"
  using reserve_updates_alternate [of init "''AAPL''" 100 "Some [(''AAPL'', shares 100)]"
      example_active "[]" answers]
  by (simp add: run_defs start_defs)

text \<open>
  Without the positive reference price the property fails. The code takes any non-zero
  first price as the reference: from -100, a price of -110 is a change of +10 percent,
  5 of the 100 shares are sold and the reserve is set to -550. The run is a whole call of
  \<open>start_monitoring\<close> on a new bot, ended by an interrupt after the first iteration.
\<close>

theorem negative_reference_reserve_counterexample:
  "map_option (\<lambda>b. Reserved_cash (- 550) \<in> set (logger b))
     (start_monitoring init ''AAPL'' (Some (- 100)) (Some [(''AAPL'', shares 100)])
        [answers\<lparr>get_latest_trade := Some (- 110), interrupted := True\<rparr>]) = Some True
   \<and> map_option cash_reserve
     (start_monitoring init ''AAPL'' (Some (- 100)) (Some [(''AAPL'', shares 100)])
        [answers\<lparr>get_latest_trade := Some (- 110), interrupted := True\<rparr>]) = Some (- 550)"
  by (simp add: run_defs start_defs)

subsection \<open>A rejected order\<close>

lemma execute_rebalance_rejected:
  "execute_rebalance s a False time = (False, log_msg s (Error_placing_order (action a) (ticker s)))"
  by (simp add: execute_rebalance_def place_order_def)

lemma check_rebalancing_rejected:
  assumes "\<not> submit_order r"
  shows "cash_reserve (bot_after (check_rebalancing s r)) = cash_reserve s"
    and "trades_today (bot_after (check_rebalancing s r)) = trades_today s"
  using assms
  by (auto simp: check_rebalancing_def execute_rebalance_rejected log_msg_def Let_def
      dest!: calculate_state
      split: option.splits prod.splits sum.splits)

lemma iteration_rejected:
  assumes "\<not> submit_order r"
  shows "cash_reserve (bot_of (iteration s r)) = cash_reserve s
       \<and> trades_today (bot_of (iteration s r)) = trades_today s"
proof (cases "reaches_check s r")
  case False
  then show ?thesis using iteration_quiet(2,3) by simp
next
  case True
  from iteration_checked [OF True] obtain cp h l ip pos s5 where
    c: "get_position (s\<lparr>current_price := Some cp, daily_high := Some (max h cp),
                      daily_low := Some (min l cp)\<rparr>) (ticker s) (list_positions_status r)
        = (pos, s5)"
       "iteration s r = sleep (bot_after (check_rebalancing
         (log_msg s5 (Status_line cp ((cp - ip) / ip) (qty pos) (cash_reserve s))) r)) r"
    by blast
  show ?thesis
    using get_position_fields [OF c(1)] check_rebalancing_rejected [OF assms]
    by (simp add: c(2) sleep_fields log_msg_def)
qed

text \<open>
  C7. When the order submission fails, \<open>execute_rebalance\<close> returns false and changes
  nothing but the log; a trade is appended to \<open>trades_today\<close> exactly when the
  submission succeeds; and an iteration whose order submission fails leaves the reserve
  and the ledger as they were.
\<close>

theorem failed_submission_mutates_nothing:
  "execute_rebalance s a False time
     = (False, log_msg s (Error_placing_order (action a) (ticker s)))
   \<and> trades_today (snd (execute_rebalance s a submitted time))
     = (if submitted
        then trades_today s @
             [\<lparr>timestamp = time, t_ticker = ticker s, side = action a, t_qty = a_qty a,
               price = current_price s, t_reason = ''Rebalancing - '' @ action a\<rparr>]
        else trades_today s)
   \<and> (\<not> submit_order r \<longrightarrow>
        cash_reserve (bot_of (iteration s' r)) = cash_reserve s'
        \<and> trades_today (bot_of (iteration s' r)) = trades_today s')"
proof (intro conjI impI)
  show "execute_rebalance s a False time
     = (False, log_msg s (Error_placing_order (action a) (ticker s)))"
    by (rule execute_rebalance_rejected)
  show "trades_today (snd (execute_rebalance s a submitted time))
     = (if submitted
        then trades_today s @
             [\<lparr>timestamp = time, t_ticker = ticker s, side = action a, t_qty = a_qty a,
               price = current_price s, t_reason = ''Rebalancing - '' @ action a\<rparr>]
        else trades_today s)"
    by (simp add: execute_rebalance_def place_order_def log_msg_def Let_def
        split: option.splits)
next
  assume "\<not> submit_order r"
  then show "cash_reserve (bot_of (iteration s' r)) = cash_reserve s'"
    and "trades_today (bot_of (iteration s' r)) = trades_today s'"
    using iteration_rejected by simp_all
qed

text \<open>
  An iteration that decides to sell and has the order rejected: the failure is logged,
  the reserve is still 0 and no trade is recorded.
\<close>

theorem failed_submission_mutates_nothing_witness:
  "\<not> submit_order (answers\<lparr>submit_order := False\<rparr>)
   \<and> Rebalancing_failed \<in> set (logger (bot_of (iteration example_bot (answers\<lparr>submit_order := False\<rparr>))))
   \<and> cash_reserve (bot_of (iteration example_bot (answers\<lparr>submit_order := False\<rparr>))) = 0
   \<and> trades_today (bot_of (iteration example_bot (answers\<lparr>submit_order := False\<rparr>))) = []"
  using failed_submission_mutates_nothing
    [of example_bot "\<lparr>action = ''sell'', a_qty = 5, a_reason = Gain_reached (5 / 100),
          reserve_cash = True, use_reserve = False\<rparr>" 0 True
        "answers\<lparr>submit_order := False\<rparr>" example_bot]
  by (simp add: run_defs)

subsection \<open>A failed position fetch\<close>

lemma calculate_without_position:
  assumes "initial_price s = Some ip" and "ip \<noteq> 0" and "current_price s = Some cp" and "cp \<noteq> 0"
  shows "snd (calculate_rebalance_action s None) = log_msg s (Error_getting_position (ticker s))"
    and "fst (calculate_rebalance_action s None) = Inr (Some a) \<Longrightarrow> action a = ''buy''"
  using assms
  by (auto simp: calculate_rebalance_action_def py_truediv_def get_position_def
        zero_position_def Let_def split: if_splits)

lemma check_rebalancing_without_position:
  assumes "initial_price s = Some ip" and "ip \<noteq> 0" and "current_price s = Some cp" and "cp \<noteq> 0"
    and "list_positions_action r = None"
  shows "\<exists>new. logger (bot_after (check_rebalancing s r)) = logger s @ new
           \<and> Error_getting_position (ticker s) \<in> set new"
    and "trades_today (bot_after (check_rebalancing s r)) = trades_today s
       \<or> (\<exists>tr. trades_today (bot_after (check_rebalancing s r)) = trades_today s @ [tr]
               \<and> side tr = ''buy'')"
proof -
  obtain res s1 where c: "calculate_rebalance_action s None = (res, s1)"
    by (cases "calculate_rebalance_action s None") auto
  have s1: "s1 = log_msg s (Error_getting_position (ticker s))"
    using calculate_without_position(1) [OF assms(1-4)] c by simp
  have buy: "action a = ''buy''" if "res = Inr (Some a)" for a
    using calculate_without_position(2) [OF assms(1-4), of a] c that by simp
  show "\<exists>new. logger (bot_after (check_rebalancing s r)) = logger s @ new
           \<and> Error_getting_position (ticker s) \<in> set new"
    using c s1 assms(5)
    by (auto simp: check_rebalancing_def execute_rebalance_def place_order_def log_msg_def
        Let_def split: sum.splits option.splits)
  show "trades_today (bot_after (check_rebalancing s r)) = trades_today s
       \<or> (\<exists>tr. trades_today (bot_after (check_rebalancing s r)) = trades_today s @ [tr]
               \<and> side tr = ''buy'')"
    using c s1 assms(5) buy
    by (auto simp: check_rebalancing_def execute_rebalance_def place_order_def log_msg_def
        Let_def split: sum.splits option.splits)
qed

text \<open>
  C4, as the code has it. When the position fetch of the decision fails, the failure is
  logged and the decision is made on the all-zero position, as for an empty position
  list: it is never a sell. The body completes and the loop goes on to the sleep; the
  ledger is unchanged or has one more trade, a buy from the loss branch.
\<close>

theorem failed_position_fetch_reads_as_zero:
  assumes "is_running s" and "get_clock r = Some b"
    and "get_latest_trade r = Some cp" and "cp \<noteq> 0"
    and "daily_high s = Some h" and "daily_low s = Some l"
    and "initial_price s = Some ip" and "ip \<noteq> 0"
    and "list_positions_action r = None"
  shows "fst (calculate_rebalance_action x None) = fst (calculate_rebalance_action x (Some []))
       \<and> (\<forall>a. fst (calculate_rebalance_action x None) = Inr (Some a) \<longrightarrow> action a = ''buy'')
       \<and> (\<exists>s'. iteration s r = sleep s' r
             \<and> Error_getting_position (ticker s) \<in> set (drop (length (logger s)) (logger s'))
             \<and> (trades_today s' = trades_today s
                \<or> (\<exists>tr. trades_today s' = trades_today s @ [tr] \<and> side tr = ''buy'')))"
proof (intro conjI)
  show "fst (calculate_rebalance_action x None) = fst (calculate_rebalance_action x (Some []))"
    by (simp add: calculate_rebalance_action_def get_position_def log_msg_def Let_def
        split: option.splits sum.splits)
  show "\<forall>a. fst (calculate_rebalance_action x None) = Inr (Some a) \<longrightarrow> action a = ''buy''"
    by (auto simp: calculate_rebalance_action_def py_truediv_def get_position_def
        zero_position_def Let_def split: option.splits if_splits)
next
  have "reaches_check s r"
    using assms by (simp add: reaches_check_def)
  from iteration_checked [OF this] obtain cp' h' l' ip' pos s5 where
    c: "get_latest_trade r = Some cp'" "cp' \<noteq> 0" "initial_price s = Some ip'" "ip' \<noteq> 0"
       "get_position (s\<lparr>current_price := Some cp', daily_high := Some (max h' cp'),
                      daily_low := Some (min l' cp')\<rparr>) (ticker s) (list_positions_status r)
        = (pos, s5)"
       "iteration s r = sleep (bot_after (check_rebalancing
         (log_msg s5 (Status_line cp' ((cp' - ip') / ip') (qty pos) (cash_reserve s))) r)) r"
    by blast
  let ?s6 = "log_msg s5 (Status_line cp' ((cp' - ip') / ip') (qty pos) (cash_reserve s))"
  note f = get_position_fields [OF c(5)]
  have s6: "initial_price ?s6 = Some ip'" "current_price ?s6 = Some cp'"
    "ticker ?s6 = ticker s" "trades_today ?s6 = trades_today s"
    using f c(3) by (simp_all add: log_msg_def)
  from c(5) obtain pre where pre: "logger ?s6 = logger s @ pre"
    by (auto simp: get_position_def log_msg_def split: option.splits)
  from check_rebalancing_without_position [OF s6(1) c(4) s6(2) c(2) assms(9)]
  obtain new where
    n: "logger (bot_after (check_rebalancing ?s6 r)) = logger ?s6 @ new"
       "Error_getting_position (ticker ?s6) \<in> set new"
    and t: "trades_today (bot_after (check_rebalancing ?s6 r)) = trades_today ?s6
       \<or> (\<exists>tr. trades_today (bot_after (check_rebalancing ?s6 r)) = trades_today ?s6 @ [tr]
               \<and> side tr = ''buy'')"
    by blast
  have lg: "drop (length (logger s)) (logger (bot_after (check_rebalancing ?s6 r))) = pre @ new"
    unfolding n(1) pre by simp
  show "\<exists>s'. iteration s r = sleep s' r
             \<and> Error_getting_position (ticker s) \<in> set (drop (length (logger s)) (logger s'))
             \<and> (trades_today s' = trades_today s
                \<or> (\<exists>tr. trades_today s' = trades_today s @ [tr] \<and> side tr = ''buy''))"
    using c(6) lg n(2) t s6(3,4) by auto
qed

text \<open>
  The iteration of the scenario with the reserve at 525 and the price at 90, when the
  position fetch of the decision fails: the failure is logged and 5 shares are bought.
\<close>

theorem failed_position_fetch_reads_as_zero_witness:
  "iteration (example_bot\<lparr>cash_reserve := 525\<rparr>)
      (answers\<lparr>get_latest_trade := Some 90, list_positions_action := None\<rparr>)
    = Continue (example_bot
        \<lparr>current_price := Some 90, daily_low := Some 90, cash_reserve := 0,
         trades_today := [\<lparr>timestamp = 0, t_ticker = Some ''AAPL'', side = ''buy'', t_qty = 5,
                           price = Some 90, t_reason = ''Rebalancing - buy''\<rparr>],
         logger := [Status_line 90 (- (10 / 100)) 100 525,
                    Error_getting_position (Some ''AAPL''),
                    Rebalancing_action (Loss_reached (- (10 / 100))),
                    Order_placed ''buy'' 5 (Some ''AAPL''), Used_reserved_cash,
                    Rebalancing_executed]\<rparr>)"
proof -
  have fl: "\<lfloor>35 / 6 :: rat\<rfloor> = 5" by linarith
  show ?thesis
    using failed_position_fetch_reads_as_zero
      [of "example_bot\<lparr>cash_reserve := 525\<rparr>"
          "answers\<lparr>get_latest_trade := Some 90, list_positions_action := None\<rparr>"
          True 90 105 100 100 example_bot]
    by (simp add: run_defs fl)
qed

text \<open>
  The decision step is not skipped: in this iteration both position fetches fail, and a
  decision is made all the same, and a trade is submitted and recorded.
\<close>

theorem failed_position_fetch_still_trades:
  "list_positions_action (answers\<lparr>get_latest_trade := Some 90, list_positions_status := None,
        list_positions_action := None\<rparr>) = None
   \<and> trades_today (bot_of (iteration (example_bot\<lparr>cash_reserve := 525\<rparr>)
        (answers\<lparr>get_latest_trade := Some 90, list_positions_status := None,
                 list_positions_action := None\<rparr>)))
     = [\<lparr>timestamp = 0, t_ticker = Some ''AAPL'', side = ''buy'', t_qty = 5,
         price = Some 90, t_reason = ''Rebalancing - buy''\<rparr>]"
proof -
  have fl: "\<lfloor>35 / 6 :: rat\<rfloor> = 5" by linarith
  show ?thesis by (simp add: run_defs fl)
qed

subsection \<open>The market clock\<close>

text \<open>
  The loop condition asks \<open>is_market_open\<close> once, before the body, and a lookup that
  raises reads as closed: the loop is left.
\<close>

lemma clock_failure_exits:
  assumes "is_running s" and "get_clock r = None"
  shows "iteration s r = Exit (log_msg s Error_checking_market_status)"
  using assms by (simp add: iteration_def is_market_open_def)

text \<open>
  C5, where the code departs from it. The clock lookup succeeds and says that the market
  is closed: \<open>is_market_open\<close> answers true all the same
  (\<open>return True #clock.is_open\<close>), and the iteration goes on to the sleep instead of
  leaving the loop.
\<close>

theorem is_market_open_ignores_clock:
  "fst (is_market_open example_bot (Some False)) = True
   \<and> iteration example_bot (answers\<lparr>get_clock := Some False, get_latest_trade := None\<rparr>)
       = Continue (log_msg example_bot (Error_getting_price (Some ''AAPL'')))"
  by (simp add: run_defs)

subsection \<open>The reference price\<close>

text \<open>
  C6, as the code has it. With the reference price unset or zero,
  \<open>calculate_rebalance_action\<close> returns \<open>None\<close> and leaves the bot as it is, for
  every current price and every position.
\<close>

theorem no_reference_price_no_action:
  assumes "initial_price s = None \<or> initial_price s = Some 0"
  shows "calculate_rebalance_action s positions = (Inr None, s)"
  using assms by (auto simp: calculate_rebalance_action_def)

theorem no_reference_price_no_action_witness:
  "calculate_rebalance_action (example_bot\<lparr>initial_price := Some 0\<rparr>) (Some [(''AAPL'', shares 100)])
     = (Inr None, example_bot\<lparr>initial_price := Some 0\<rparr>)"
  using no_reference_price_no_action [of "example_bot\<lparr>initial_price := Some 0\<rparr>"
      "Some [(''AAPL'', shares 100)]"]
  by simp

text \<open>
  A negative reference price is not rejected: the test is \<open>not self.initial_price\<close>,
  which only \<open>None\<close> and zero fail. From -100 to -110 with 100 shares the decision is
  to sell 5.
\<close>

theorem negative_reference_price_sells:
  "fst (calculate_rebalance_action
          (example_bot\<lparr>initial_price := Some (- 100), current_price := Some (- 110)\<rparr>)
          (Some [(''AAPL'', shares 100)]))
     = Inr (Some \<lparr>action = ''sell'', a_qty = 5, a_reason = Gain_reached (10 / 100),
                   reserve_cash = True, use_reserve = False\<rparr>)"
  by (simp add: run_defs)

subsection \<open>Daily extremes\<close>

text \<open>One iteration widens the extremes and keeps the price between them.\<close>

lemma iteration_extremes:
  assumes "daily_high s = Some h" and "daily_low s = Some l" and "current_price s = Some c"
    and "l \<le> c" and "c \<le> h"
  shows "\<exists>h' l' c'. daily_high (bot_of (iteration s r)) = Some h'
      \<and> daily_low (bot_of (iteration s r)) = Some l'
      \<and> current_price (bot_of (iteration s r)) = Some c'
      \<and> l' \<le> l \<and> h \<le> h' \<and> l' \<le> c' \<and> c' \<le> h'"
proof (cases "reaches_check s r")
  case False
  with assms show ?thesis
    by (auto simp: reaches_check_def iteration_def sleep_def loop_body_def is_market_open_def
        get_current_price_def py_max_def py_min_def py_truediv_def log_msg_def Let_def
        split: option.splits)
next
  case True
  from iteration_checked [OF True] obtain cp h' l' ip pos s5 where
    c: "daily_high s = Some h'" "daily_low s = Some l'"
       "get_position (s\<lparr>current_price := Some cp, daily_high := Some (max h' cp),
                      daily_low := Some (min l' cp)\<rparr>) (ticker s) (list_positions_status r)
        = (pos, s5)"
       "iteration s r = sleep (bot_after (check_rebalancing
         (log_msg s5 (Status_line cp ((cp - ip) / ip) (qty pos) (cash_reserve s))) r)) r"
    by blast
  have hl: "h' = h" "l' = l" using c(1,2) assms(1,2) by simp_all
  show ?thesis
    using get_position_fields [OF c(3)] assms(4,5)
    by (simp add: c(4) hl sleep_fields check_rebalancing_fields log_msg_def)
qed

lemma loop_extremes:
  assumes "daily_high s = Some h0" and "daily_low s = Some l0" and "current_price s = Some c0"
    and "l0 \<le> c0" and "c0 \<le> h0"
  shows "\<exists>h l hk lk ck.
        daily_high (bot_of (monitoring_loop s rs)) = Some h
      \<and> daily_low (bot_of (monitoring_loop s rs)) = Some l
      \<and> daily_high (bot_of (monitoring_loop s (take k rs))) = Some hk
      \<and> daily_low (bot_of (monitoring_loop s (take k rs))) = Some lk
      \<and> current_price (bot_of (monitoring_loop s (take k rs))) = Some ck
      \<and> l \<le> lk \<and> lk \<le> ck \<and> ck \<le> hk \<and> hk \<le> h \<and> lk \<le> l0 \<and> h0 \<le> hk"
  using assms
proof (induction rs arbitrary: s h0 l0 c0 k)
  case Nil
  then show ?case by simp
next
  case (Cons r rs)
  from iteration_extremes [OF Cons.prems, of r] obtain h1 l1 c1 where
    s1: "daily_high (bot_of (iteration s r)) = Some h1"
        "daily_low (bot_of (iteration s r)) = Some l1"
        "current_price (bot_of (iteration s r)) = Some c1"
        "l1 \<le> l0" "h0 \<le> h1" "l1 \<le> c1" "c1 \<le> h1"
    by blast
  show ?case
  proof (cases "iteration s r")
    case (Exit s')
    show ?thesis
    proof (cases k)
      case 0
      with Exit s1 Cons.prems show ?thesis by simp
    next
      case (Suc k')
      with Exit s1 Cons.prems show ?thesis by simp
    qed
  next
    case (Continue s')
    then have s': "daily_high s' = Some h1" "daily_low s' = Some l1" "current_price s' = Some c1"
      using s1(1-3) by simp_all
    show ?thesis
    proof (cases k)
      case 0
      from Cons.IH [OF s' s1(6,7), of 0] obtain h l where
        "daily_high (bot_of (monitoring_loop s' rs)) = Some h"
        "daily_low (bot_of (monitoring_loop s' rs)) = Some l"
        "l \<le> l1" "h1 \<le> h"
        by auto
      with 0 Continue Cons.prems s1(4,5) show ?thesis by simp
    next
      case (Suc k')
      from Cons.IH [OF s' s1(6,7), of k'] obtain h l hk lk ck where
        "daily_high (bot_of (monitoring_loop s' rs)) = Some h"
        "daily_low (bot_of (monitoring_loop s' rs)) = Some l"
        "daily_high (bot_of (monitoring_loop s' (take k' rs))) = Some hk"
        "daily_low (bot_of (monitoring_loop s' (take k' rs))) = Some lk"
        "current_price (bot_of (monitoring_loop s' (take k' rs))) = Some ck"
        "l \<le> lk" "lk \<le> ck" "ck \<le> hk" "hk \<le> h" "lk \<le> l1" "h1 \<le> hk"
        by blast
      with Suc Continue s1(4,5) show ?thesis by simp
    qed
  qed
qed

text \<open>A price that is fetched and not zero is the current price after the iteration.\<close>

lemma iteration_sets_price:
  assumes "reaches_check s r"
  shows "current_price (bot_of (iteration s r)) = get_latest_trade r"
proof -
  from iteration_checked [OF assms] obtain cp h l ip pos s5 where
    c: "get_latest_trade r = Some cp"
       "get_position (s\<lparr>current_price := Some cp, daily_high := Some (max h cp),
                      daily_low := Some (min l cp)\<rparr>) (ticker s) (list_positions_status r)
        = (pos, s5)"
       "iteration s r = sleep (bot_after (check_rebalancing
         (log_msg s5 (Status_line cp ((cp - ip) / ip) (qty pos) (cash_reserve s))) r)) r"
    by blast
  show ?thesis
    using get_position_fields [OF c(2)]
    by (simp add: c(1,3) sleep_fields check_rebalancing_fields log_msg_def)
qed

text \<open>
  C8. In every run of the loop from the start of \<open>start_monitoring\<close>, and for every
  number \<open>k\<close> of iterations into the run: the price and the extremes after \<open>k\<close>
  iterations are ordered low, price, high; the final low is at most the low after \<open>k\<close>
  iterations and the final high at least the high; and the reference price lies between
  the final extremes.
\<close>

theorem daily_extremes_widen:
  assumes "initialize s t latest positions = Inr s0"
  shows "\<exists>ip h l hk lk ck.
        initial_price (bot_of (monitoring_loop s0 rs)) = Some ip
      \<and> daily_high (bot_of (monitoring_loop s0 rs)) = Some h
      \<and> daily_low (bot_of (monitoring_loop s0 rs)) = Some l
      \<and> daily_high (bot_of (monitoring_loop s0 (take k rs))) = Some hk
      \<and> daily_low (bot_of (monitoring_loop s0 (take k rs))) = Some lk
      \<and> current_price (bot_of (monitoring_loop s0 (take k rs))) = Some ck
      \<and> l \<le> lk \<and> lk \<le> ck \<and> ck \<le> hk \<and> hk \<le> h \<and> l \<le> ip \<and> ip \<le> h"
proof -
  from initialize_active [OF assms] obtain p0 where
    s0: "initial_price s0 = Some p0" "current_price s0 = Some p0"
        "daily_high s0 = Some p0" "daily_low s0 = Some p0"
    by blast
  have ip: "initial_price (bot_of (monitoring_loop s0 rs)) = Some p0"
    using monitoring_loop_keeps [of s0 rs] s0(1) by simp
  from loop_extremes [OF s0(3,4,2), of rs k] obtain h l hk lk ck where
    "daily_high (bot_of (monitoring_loop s0 rs)) = Some h"
    "daily_low (bot_of (monitoring_loop s0 rs)) = Some l"
    "daily_high (bot_of (monitoring_loop s0 (take k rs))) = Some hk"
    "daily_low (bot_of (monitoring_loop s0 (take k rs))) = Some lk"
    "current_price (bot_of (monitoring_loop s0 (take k rs))) = Some ck"
    "l \<le> lk" "lk \<le> ck" "ck \<le> hk" "hk \<le> h" "lk \<le> p0" "p0 \<le> hk"
    by auto
  with ip show ?thesis by force
qed

text \<open>
  A run of two iterations from the reference price 100, seeing 105 and then 90: the price
  after the first iteration is 105, and the final extremes are 105 and 90.
\<close>

theorem daily_extremes_widen_witness:
  "initialize init ''AAPL'' (Some 100) (Some [(''AAPL'', shares 100)])
     = Inr example_active
   \<and> current_price (bot_of (monitoring_loop example_active
        (take 1 [answers, answers\<lparr>get_latest_trade := Some 90\<rparr>]))) = Some 105
   \<and> daily_high (bot_of (monitoring_loop example_active
        [answers, answers\<lparr>get_latest_trade := Some 90\<rparr>])) = Some 105
   \<and> daily_low (bot_of (monitoring_loop example_active
        [answers, answers\<lparr>get_latest_trade := Some 90\<rparr>])) = Some 90"
proof -
  have fl: "\<lfloor>35 / 6 :: rat\<rfloor> = 5" by linarith
  show ?thesis
    using daily_extremes_widen [of init "''AAPL''" "Some 100" "Some [(''AAPL'', shares 100)]"
      example_active
      "[answers, answers\<lparr>get_latest_trade := Some 90\<rparr>]" 1]
    by (simp add: run_defs start_defs fl)
qed

subsection \<open>A failed price fetch\<close>

lemma iteration_without_price:
  assumes "get_latest_trade r = None"
  shows "iteration s r =
     (if is_running s
      then (case get_clock r of
              None \<Rightarrow> Exit (log_msg s Error_checking_market_status)
            | Some b \<Rightarrow> sleep (log_msg s (Error_getting_price (ticker s))) r)
      else Exit s)"
  using assms
  by (simp add: iteration_def loop_body_def is_market_open_def get_current_price_def
      split: option.splits)

lemma iteration_without_price_frame:
  assumes "get_latest_trade r = None"
  shows "bot_of (iteration s r) = s\<lparr>logger := logger (bot_of (iteration s r))\<rparr>"
  by (simp add: iteration_without_price [OF assms] sleep_def log_msg_def split: option.splits)

lemma loop_without_price_frame:
  assumes "\<forall>r \<in> set rs. get_latest_trade r = None"
  shows "bot_of (monitoring_loop s rs) = s\<lparr>logger := logger (bot_of (monitoring_loop s rs))\<rparr>"
  using assms
proof (induction rs arbitrary: s)
  case Nil
  show ?case by simp
next
  case (Cons r rs)
  then have r: "get_latest_trade r = None" and rs: "\<forall>r \<in> set rs. get_latest_trade r = None"
    by simp_all
  note f = iteration_without_price_frame [OF r, of s]
  show ?case
  proof (cases "iteration s r")
    case (Exit s')
    with f show ?thesis by simp
  next
    case (Continue s')
    with f have s': "s' = s\<lparr>logger := logger s'\<rparr>" by simp
    have "bot_of (monitoring_loop s (r # rs)) = bot_of (monitoring_loop s' rs)"
      using Continue by simp
    also have "\<dots> = s'\<lparr>logger := logger (bot_of (monitoring_loop s' rs))\<rparr>"
      using Cons.IH [OF rs] .
    also have "\<dots> = s\<lparr>logger := logger (bot_of (monitoring_loop s' rs))\<rparr>"
      by (subst s') simp
    finally show ?thesis using Continue by simp
  qed
qed

lemma loop_without_price_continues:
  assumes "\<forall>r \<in> set rs. get_latest_trade r = None \<and> get_clock r \<noteq> None \<and> \<not> interrupted r"
    and "is_running s"
  shows "monitoring_loop s rs
       = Continue (s\<lparr>logger := logger s @ replicate (length rs) (Error_getting_price (ticker s))\<rparr>)"
  using assms
proof (induction rs arbitrary: s)
  case Nil
  show ?case by simp
next
  case (Cons r rs)
  then have r: "get_latest_trade r = None" and c: "get_clock r \<noteq> None" "\<not> interrupted r"
    and rs: "\<forall>r \<in> set rs. get_latest_trade r = None \<and> get_clock r \<noteq> None \<and> \<not> interrupted r"
    by simp_all
  let ?s1 = "log_msg s (Error_getting_price (ticker s))"
  have run: "is_running ?s1" using Cons.prems(2) by (simp add: log_msg_def)
  have "monitoring_loop s (r # rs) = monitoring_loop ?s1 rs"
    using Cons.prems(2) c by (auto simp: iteration_without_price [OF r] sleep_def)
  also have "\<dots> = Continue (?s1\<lparr>logger := logger ?s1
      @ replicate (length rs) (Error_getting_price (ticker ?s1))\<rparr>)"
    using Cons.IH [OF rs run] .
  finally show ?case by (simp add: log_msg_def replicate_append_same)
qed

text \<open>
  C9. Over any number of iterations whose price fetch fails, the bot changes in its log
  only: the prices, the extremes, the reserve and the ledger stay as they are. The body
  of each such iteration completes with nothing but the error line, so the loop goes on
  to the sleep; while the clock lookup succeeds and no sleep is interrupted the loop is
  still running after all of them, and all it has added is one error line per iteration.
\<close>

theorem failed_price_fetch_changes_nothing:
  assumes "\<forall>r \<in> set rs. get_latest_trade r = None"
  shows "bot_of (monitoring_loop s rs) = s\<lparr>logger := logger (bot_of (monitoring_loop s rs))\<rparr>
       \<and> (\<forall>r \<in> set rs. loop_body s r = Completed (log_msg s (Error_getting_price (ticker s))))
       \<and> (is_running s \<and> (\<forall>r \<in> set rs. get_clock r \<noteq> None \<and> \<not> interrupted r) \<longrightarrow>
            monitoring_loop s rs
              = Continue (s\<lparr>logger := logger s
                  @ replicate (length rs) (Error_getting_price (ticker s))\<rparr>))"
proof (intro conjI impI ballI)
  show "bot_of (monitoring_loop s rs) = s\<lparr>logger := logger (bot_of (monitoring_loop s rs))\<rparr>"
    using assms by (rule loop_without_price_frame)
next
  assume "is_running s \<and> (\<forall>r \<in> set rs. get_clock r \<noteq> None \<and> \<not> interrupted r)"
  with assms show "monitoring_loop s rs
      = Continue (s\<lparr>logger := logger s
          @ replicate (length rs) (Error_getting_price (ticker s))\<rparr>)"
    using loop_without_price_continues [of rs s] by simp
next
  fix r assume "r \<in> set rs"
  with assms have "get_latest_trade r = None" by simp
  then show "loop_body s r = Completed (log_msg s (Error_getting_price (ticker s)))"
    by (simp add: loop_body_def get_current_price_def)
qed

text \<open>Three iterations in a row whose price fetch fails.\<close>

theorem failed_price_fetch_changes_nothing_witness:
  "monitoring_loop example_bot (replicate 3 (answers\<lparr>get_latest_trade := None\<rparr>))
     = Continue (example_bot\<lparr>logger := replicate 3 (Error_getting_price (Some ''AAPL''))\<rparr>)"
  using failed_price_fetch_changes_nothing
    [of "replicate 3 (answers\<lparr>get_latest_trade := None\<rparr>)" example_bot]
  by (simp add: example_bot_def init_def answers_def)

subsection \<open>A price of zero\<close>

text \<open>
  C10. A fetched price of 0 skips the loop body like an absent price (which also logs the
  error); with a current or reference price of 0 \<open>calculate_rebalance_action\<close> returns
  \<open>None\<close>; no division of \<open>calculate_rebalance_action\<close> ever has a zero divisor;
  and a first price of 0 ends \<open>start_monitoring\<close> before the loop.
\<close>

theorem zero_price_is_absent:
  "loop_body s (r\<lparr>get_latest_trade := Some 0\<rparr>) = Completed s
   \<and> loop_body s (r\<lparr>get_latest_trade := None\<rparr>)
       = Completed (log_msg s (Error_getting_price (ticker s)))
   \<and> (current_price s = Some 0 \<or> initial_price s = Some 0 \<longrightarrow>
        calculate_rebalance_action s positions = (Inr None, s))
   \<and> fst (calculate_rebalance_action s positions) \<noteq> Inl ZeroDivisionError
   \<and> (\<exists>s'. initialize s t (Some 0) positions = Inl s')"
proof (intro conjI impI)
  show "loop_body s (r\<lparr>get_latest_trade := Some 0\<rparr>) = Completed s"
    by (simp add: loop_body_def get_current_price_def)
  show "loop_body s (r\<lparr>get_latest_trade := None\<rparr>)
       = Completed (log_msg s (Error_getting_price (ticker s)))"
    by (simp add: loop_body_def get_current_price_def)
  show "fst (calculate_rebalance_action s positions) \<noteq> Inl ZeroDivisionError"
    by (rule calculate_never_raises)
  show "\<exists>s'. initialize s t (Some 0) positions = Inl s'"
    by (simp add: initialize_def get_current_price_def Let_def)
next
  assume "current_price s = Some 0 \<or> initial_price s = Some 0"
  then show "calculate_rebalance_action s positions = (Inr None, s)"
    by (auto simp: calculate_rebalance_action_def split: option.splits)
qed

theorem zero_price_is_absent_witness:
  "current_price (example_bot\<lparr>current_price := Some 0, cash_reserve := 525\<rparr>) = Some 0
   \<and> calculate_rebalance_action (example_bot\<lparr>current_price := Some 0, cash_reserve := 525\<rparr>)
        (Some [(''AAPL'', shares 100)])
     = (Inr None, example_bot\<lparr>current_price := Some 0, cash_reserve := 525\<rparr>)"
  using zero_price_is_absent
    [of "example_bot\<lparr>current_price := Some 0, cash_reserve := 525\<rparr>" answers
        "Some [(''AAPL'', shares 100)]" "''AAPL''"]
  by simp

end
